theory Spec2Isabelle
  imports Complex_Main "HOL-Library.Multiset"
begin

section \<open>Tensors, keyword arguments and failures\<close>

text \<open>
  The model of \<^verbatim>\<open>model/memory_network_bidir.py\<close>. Numeric arrays are lists of reals: the
  arithmetic is the exact one, of which the floating-point arithmetic of the tensor library is an
  approximation. A batch array is a list of rows, one row per example (the stored orientation,
  time on the second axis). The keyword arguments of \<^verbatim>\<open>apply\<close> and \<^verbatim>\<open>predict\<close> are a
  dictionary from names to arrays.
\<close>

datatype tensor = Vector "real list" | Matrix "real list list"

type_synonym kwargs = "string \<rightharpoonup> tensor"

text \<open>
  The source has no error handling of its own: a missing key, a missing argument, a shape
  mismatch and an index out of range propagate from the dictionary and the tensor operations.
  \<open>NonFinite\<close> is not an exception: it stands for a division by zero, whose floating-point
  result (NaN or an infinity) then spreads through every later product and sum, and which HOL
  would silently evaluate to \<open>0\<close>. The model evaluates the operations eagerly in the order of
  the source and reports the first failure.
\<close>

datatype error = KeyError string | TypeError | ShapeError | IndexError | NonFinite

text \<open>Indexing along one axis, as the tensor library does it: a negative index counts from the end.\<close>

definition index_at :: "'a list \<Rightarrow> int \<Rightarrow> error + 'a" where
  "index_at xs i =
     (if 0 \<le> i \<and> i < int (length xs) then Inr (xs ! nat i)
      else if i < 0 \<and> - int (length xs) \<le> i then Inr (xs ! nat (i + int (length xs)))
      else Inl IndexError)"

text \<open>\<^verbatim>\<open>tensor.cast(x, 'int64')\<close> of a floating-point value rounds towards zero.\<close>

definition cast_int64 :: "real \<Rightarrow> int" where
  "cast_int64 x = (if 0 \<le> x then \<lfloor>x\<rfloor> else \<lceil>x\<rceil>)"

text \<open>Running a list of fallible computations: the first failure wins.\<close>

fun sequence :: "(error + 'a) list \<Rightarrow> error + 'a list" where
  "sequence [] = Inr []"
| "sequence (Inl e # rs) = Inl e"
| "sequence (Inr x # rs) = (case sequence rs of Inl e \<Rightarrow> Inl e | Inr xs \<Rightarrow> Inr (x # xs))"

text \<open>
  The dictionary comprehension \<^verbatim>\<open>{ name: kwargs[pre + name] for name in names }\<close>: a missing
  key raises \<open>KeyError\<close> at the first name that has none.
\<close>

fun gather :: "string \<Rightarrow> string list \<Rightarrow> kwargs \<Rightarrow> error + kwargs" where
  "gather pre [] kw = Inr Map.empty"
| "gather pre (name # names) kw =
     (case kw (pre @ name) of
        None \<Rightarrow> Inl (KeyError (pre @ name))
      | Some v \<Rightarrow> (case gather pre names kw of
                    Inl e \<Rightarrow> Inl e
                  | Inr d \<Rightarrow> Inr (d(name \<mapsto> v))))"

section \<open>RecurrentEncoder\<close>

text \<open>
  The bricks an encoder owns come from the \<^verbatim>\<open>blocks\<close> library and from the context embedder of
  the \<^verbatim>\<open>model\<close> package, and carry learned parameters; they are parameters of the model. Each of
  them treats the examples of a batch independently, so each is given by what it does on one
  example:
  \<^item> \<open>context_embedder_inputs\<close>, \<open>context_embedder_apply\<close>: \<^verbatim>\<open>ContextEmbedder.inputs\<close> and the
    concatenation of the embeddings of one example, from its feature values in the order of the
    inputs;
  \<^item> \<open>fork_apply\<close>: the \<^verbatim>\<open>Fork\<close> of linear maps on the two standardised coordinates of one
    timestep;
  \<^item> \<open>forward_initial_state\<close>, \<open>forward_step\<close>, \<open>backward_initial_state\<close>, \<open>backward_step\<close>,
    \<open>hidden\<close>: the two \<^verbatim>\<open>LSTM\<close> children of \<^verbatim>\<open>Bidirectional\<close>, each with its initial state and
    its transition (from the state, the forked input and the mask value of one timestep to the
    next state), and the hidden-state vector of a state;
  \<^item> \<open>rec_to_output\<close>: the \<^verbatim>\<open>MLP\<close> on one example.
\<close>

record 's encoder_config =
  rec_state_dim :: nat
  context_embedder_inputs :: "string list"
  context_embedder_apply :: "real list \<Rightarrow> real list"
  fork_apply :: "real \<times> real \<Rightarrow> real list"
  forward_initial_state :: 's
  backward_initial_state :: 's
  forward_step :: "'s \<Rightarrow> real list \<Rightarrow> real \<Rightarrow> 's"
  backward_step :: "'s \<Rightarrow> real list \<Rightarrow> real \<Rightarrow> 's"
  hidden :: "'s \<Rightarrow> real list"
  rec_to_output :: "real list \<Rightarrow> real list"

record 's RecurrentEncoder =
  config :: "'s encoder_config"
  rec_inputs :: "string list"
  inputs :: "string list"

text \<open>\<^verbatim>\<open>RecurrentEncoder.__init__\<close>, lines 38 and 39.\<close>

definition RecurrentEncoder_init :: "'s encoder_config \<Rightarrow> 's RecurrentEncoder" where
  "RecurrentEncoder_init cfg =
     (let rec_inputs = [''latitude'', ''longitude'', ''latitude_mask'']
      in \<lparr> config = cfg,
           rec_inputs = rec_inputs,
           inputs = context_embedder_inputs cfg @ rec_inputs \<rparr>)"

text \<open>
  Line 61: \<^verbatim>\<open>last_id = tensor.cast(latitude_mask.sum(axis=0) - 1, dtype='int64')\<close> on the
  transposed mask, that is, one value per example, from the sum of that example's mask row.
\<close>

definition last_id :: "real list list \<Rightarrow> int list" where
  "last_id latitude_mask = map (\<lambda>row. cast_int64 (sum_list row - 1)) latitude_mask"

text \<open>
  \<^verbatim>\<open>data.train_gps_mean\<close> and \<^verbatim>\<open>data.train_gps_std\<close>, constants of the \<^verbatim>\<open>data\<close> package
  (latitude first, longitude second), are parameters.
\<close>

record data_module =
  train_gps_mean :: "real \<times> real"
  train_gps_std :: "real \<times> real"

text \<open>
  Lines 53 to 58 on one example: the two standardised coordinate sequences, stacked into one
  sequence of pairs.
\<close>

definition rec_in :: "data_module \<Rightarrow> real list \<Rightarrow> real list \<Rightarrow> (real \<times> real) list" where
  "rec_in D latitude longitude =
     zip (map (\<lambda>x. (x - fst (train_gps_mean D)) / fst (train_gps_std D)) latitude)
         (map (\<lambda>x. (x - snd (train_gps_mean D)) / snd (train_gps_std D)) longitude)"

text \<open>
  \<^verbatim>\<open>self.rec.apply(..., mask=latitude_mask)[0]\<close> on one example: the hidden states of the
  forward pass and of the backward pass (run on the reversed sequence, its states reversed
  back), concatenated timestep by timestep, the forward state first.
\<close>

fun scan :: "('s \<Rightarrow> real list \<Rightarrow> real \<Rightarrow> 's) \<Rightarrow> 's \<Rightarrow> (real list \<times> real) list \<Rightarrow> 's list" where
  "scan step s [] = []"
| "scan step s ((x, m) # xs) = step s x m # scan step (step s x m) xs"

definition forward_states :: "'s encoder_config \<Rightarrow> real list list \<Rightarrow> real list \<Rightarrow> real list list" where
  "forward_states cfg xs ms =
     map (hidden cfg) (scan (forward_step cfg) (forward_initial_state cfg) (zip xs ms))"

definition backward_states :: "'s encoder_config \<Rightarrow> real list list \<Rightarrow> real list \<Rightarrow> real list list" where
  "backward_states cfg xs ms =
     rev (map (hidden cfg) (scan (backward_step cfg) (backward_initial_state cfg) (rev (zip xs ms))))"

definition rec_apply :: "'s encoder_config \<Rightarrow> real list list \<Rightarrow> real list \<Rightarrow> real list list" where
  "rec_apply cfg xs ms = map2 (@) (forward_states cfg xs ms) (backward_states cfg xs ms)"

definition path :: "data_module \<Rightarrow> 's encoder_config \<Rightarrow> real list \<Rightarrow> real list \<Rightarrow> real list
    \<Rightarrow> real list list" where
  "path D cfg latitude longitude latitude_mask =
     rec_apply cfg (map (fork_apply cfg) (rec_in D latitude longitude)) latitude_mask"

text \<open>The slice \<^verbatim>\<open>[:, -d:]\<close> on one row; \<^verbatim>\<open>-0\<close> is \<^verbatim>\<open>0\<close>, so \<open>d = 0\<close> keeps the whole row.\<close>

definition last_columns :: "nat \<Rightarrow> 'a list \<Rightarrow> 'a list" where
  "last_columns d row = (if d = 0 then row else drop (length row - d) row)"

text \<open>
  Lines 63 to 65 on one example, from its \<open>path\<close> (one row per timestep) and its \<open>last_id\<close>:
  the pair of \<^verbatim>\<open>path[0][:, -rec_state_dim:]\<close> and
  \<^verbatim>\<open>path[last_id - 1, arange(...)][:, :rec_state_dim]\<close>.
\<close>

definition path_representation :: "'s encoder_config \<Rightarrow> real list list \<Rightarrow> int
    \<Rightarrow> error + (real list \<times> real list)" where
  "path_representation cfg p lid =
     (case index_at p 0 of
        Inl e \<Rightarrow> Inl e
      | Inr first \<Rightarrow>
          (case index_at p (lid - 1) of
             Inl e \<Rightarrow> Inl e
           | Inr at_last \<Rightarrow>
               Inr (last_columns (rec_state_dim cfg) first, take (rec_state_dim cfg) at_last)))"

text \<open>
  Line 68: the values of the context features, \<^verbatim>\<open>kwargs[k]\<close> for each input of the context
  embedder; each is a vector with one value per example.
\<close>

fun context_features :: "string list \<Rightarrow> kwargs \<Rightarrow> nat \<Rightarrow> error + real list list" where
  "context_features [] kw n = Inr []"
| "context_features (k # ks) kw n =
     (case kw k of
        None \<Rightarrow> Inl (KeyError k)
      | Some (Matrix a) \<Rightarrow> Inl ShapeError
      | Some (Vector v) \<Rightarrow>
          if length v \<noteq> n then Inl ShapeError
          else (case context_features ks kw n of
                  Inl e \<Rightarrow> Inl e
                | Inr vs \<Rightarrow> Inr (v # vs)))"

text \<open>
  \<^verbatim>\<open>RecurrentEncoder.apply\<close>, lines 52 to 73. The three arrays must be matrices of one shape;
  a zero standard deviation makes the standardised coordinates non-finite.
\<close>

definition RecurrentEncoder_apply :: "data_module \<Rightarrow> 's RecurrentEncoder
    \<Rightarrow> tensor \<Rightarrow> tensor \<Rightarrow> tensor \<Rightarrow> kwargs \<Rightarrow> error + real list list" where
  "RecurrentEncoder_apply D self latitude longitude latitude_mask kw =
     (case (latitude, longitude, latitude_mask) of
        (Matrix lat, Matrix lon, Matrix msk) \<Rightarrow>
          if fst (train_gps_std D) = 0 \<or> snd (train_gps_std D) = 0 then Inl NonFinite
          else if \<not> (list_all2 (\<lambda>r r'. length r = length r') lat lon
                     \<and> list_all2 (\<lambda>r r'. length r = length r') lat msk) then Inl ShapeError
          else
            (case sequence (map (\<lambda>b. path_representation (config self)
                                        (path D (config self) (lat ! b) (lon ! b) (msk ! b))
                                        (last_id msk ! b))
                                [0..<length lat]) of
               Inl e \<Rightarrow> Inl e
             | Inr reps \<Rightarrow>
                 (case context_features (context_embedder_inputs (config self)) kw (length lat) of
                    Inl e \<Rightarrow> Inl e
                  | Inr vs \<Rightarrow>
                      Inr (map (\<lambda>b. rec_to_output (config self)
                                       (fst (reps ! b) @ snd (reps ! b)
                                        @ context_embedder_apply (config self) (map (\<lambda>v. v ! b) vs)))
                               [0..<length lat])))
      | _ \<Rightarrow> Inl ShapeError)"

text \<open>
  The call \<^verbatim>\<open>encoder.apply(**d)\<close>: the three named parameters are taken from the dictionary and
  the rest is \<^verbatim>\<open>kwargs\<close>; a missing one is a \<open>TypeError\<close>.
\<close>

definition call_apply :: "data_module \<Rightarrow> 's RecurrentEncoder \<Rightarrow> kwargs \<Rightarrow> error + real list list" where
  "call_apply D self d =
     (case (d ''latitude'', d ''longitude'', d ''latitude_mask'') of
        (Some latitude, Some longitude, Some latitude_mask) \<Rightarrow>
          RecurrentEncoder_apply D self latitude longitude latitude_mask
            (d(''latitude'' := None, ''longitude'' := None, ''latitude_mask'' := None))
      | _ \<Rightarrow> Inl TypeError)"

section \<open>Model\<close>

record 's model_config =
  prefix_encoder_config :: "'s encoder_config"
  candidate_encoder_config :: "'s encoder_config"
  normalize_representation :: bool

record 's Model =
  model_config :: "'s model_config"
  prefix_encoder :: "'s RecurrentEncoder"
  candidate_encoder :: "'s RecurrentEncoder"
  model_inputs :: "string list"

text \<open>\<^verbatim>\<open>Model.__init__\<close>, lines 81 to 96.\<close>

definition Model_init :: "'s model_config \<Rightarrow> 's Model" where
  "Model_init cfg =
     (let pe = RecurrentEncoder_init (prefix_encoder_config cfg);
          ce = RecurrentEncoder_init (candidate_encoder_config cfg)
      in \<lparr> model_config = cfg,
           prefix_encoder = pe,
           candidate_encoder = ce,
           model_inputs = inputs pe @ map (\<lambda>k. ''candidate_'' @ k) (inputs ce) \<rparr>)"

definition predict_inputs :: "'s Model \<Rightarrow> string list" where
  "predict_inputs m = model_inputs m"

definition cost_inputs :: "'s Model \<Rightarrow> string list" where
  "cost_inputs m = model_inputs m @ [''destination_latitude'', ''destination_longitude'']"

text \<open>
  Line 119: \<^verbatim>\<open>candidate_last = tensor.cast(candidate_mask.sum(axis=1) - 1, 'int64')\<close>.
\<close>

definition candidate_last :: "real list list \<Rightarrow> int list" where
  "candidate_last candidate_mask = map (\<lambda>row. cast_int64 (sum_list row - 1)) candidate_mask"

text \<open>Lines 105 and 106.\<close>

definition prefix_representation :: "data_module \<Rightarrow> 's Model \<Rightarrow> kwargs \<Rightarrow> error + real list list" where
  "prefix_representation D self kw =
     (case gather [] (inputs (prefix_encoder self)) kw of
        Inl e \<Rightarrow> Inl e
      | Inr d \<Rightarrow> call_apply D (prefix_encoder self) d)"

text \<open>
  Lines 108 and 109: the names come from the candidate encoder, the \<^verbatim>\<open>apply\<close> is the prefix
  encoder's.
\<close>

definition candidate_representation :: "data_module \<Rightarrow> 's Model \<Rightarrow> kwargs \<Rightarrow> error + real list list" where
  "candidate_representation D self kw =
     (case gather ''candidate_'' (inputs (candidate_encoder self)) kw of
        Inl e \<Rightarrow> Inl e
      | Inr d \<Rightarrow> call_apply D (prefix_encoder self) d)"

text \<open>
  Lines 111 to 113, on one row: the row divided by the square root of the sum of its squares.
  Over the reals that root is zero only for a row of zeros, where each entry is \<open>0 / 0\<close>.
\<close>

definition l2_norm :: "real list \<Rightarrow> real" where
  "l2_norm c = sqrt (sum_list (map (\<lambda>x. x ^ 2) c))"

definition normalize_row :: "real list \<Rightarrow> error + real list" where
  "normalize_row c =
     (if c \<noteq> [] \<and> l2_norm c = 0 then Inl NonFinite else Inr (map (\<lambda>x. x / l2_norm c) c))"

definition normalized_candidate_representation :: "data_module \<Rightarrow> 's Model \<Rightarrow> kwargs
    \<Rightarrow> error + real list list" where
  "normalized_candidate_representation D self kw =
     (case candidate_representation D self kw of
        Inl e \<Rightarrow> Inl e
      | Inr c \<Rightarrow>
          if normalize_representation (model_config self) then sequence (map normalize_row c)
          else Inr c)"

text \<open>
  \<^verbatim>\<open>tensor.dot(a, b)\<close> of two matrices, \<open>a\<close> given by its rows and \<open>b\<close> by its columns: the
  rows of \<open>a\<close> and the columns of \<open>b\<close> must have one length.
\<close>

definition dot_product :: "real list \<Rightarrow> real list \<Rightarrow> real" where
  "dot_product u v = sum_list (map2 (*) u v)"

definition dot :: "real list list \<Rightarrow> real list list \<Rightarrow> error + real list list" where
  "dot a b_columns =
     (if list_all (\<lambda>u. list_all (\<lambda>v. length u = length v) b_columns) a
      then Inr (map (\<lambda>u. map (\<lambda>v. dot_product u v) b_columns) a)
      else Inl ShapeError)"

text \<open>
  Line 115: the columns of \<^verbatim>\<open>candidate_representation.T\<close> are the rows of the candidate
  representation.
\<close>

definition similarity_score :: "data_module \<Rightarrow> 's Model \<Rightarrow> kwargs \<Rightarrow> error + real list list" where
  "similarity_score D self kw =
     (case prefix_representation D self kw of
        Inl e \<Rightarrow> Inl e
      | Inr p \<Rightarrow>
          (case normalized_candidate_representation D self kw of
             Inl e \<Rightarrow> Inl e
           | Inr c \<Rightarrow> dot p c))"

text \<open>Line 116: the \<^verbatim>\<open>Softmax\<close> brick normalises each row.\<close>

definition softmax :: "real list \<Rightarrow> real list" where
  "softmax row = map (\<lambda>x. exp x / sum_list (map exp row)) row"

definition similarity :: "data_module \<Rightarrow> 's Model \<Rightarrow> kwargs \<Rightarrow> error + real list list" where
  "similarity D self kw =
     (case similarity_score D self kw of
        Inl e \<Rightarrow> Inl e
      | Inr score \<Rightarrow> Inr (map softmax score))"

text \<open>
  Lines 121 and 123: \<^verbatim>\<open>a[tensor.arange(n), candidate_last]\<close>, the entry of row \<open>b\<close> at column
  \<open>candidate_last[b]\<close>, for the first \<open>n\<close> rows.
\<close>

definition take_last :: "tensor option \<Rightarrow> string \<Rightarrow> nat \<Rightarrow> int list \<Rightarrow> error + real list" where
  "take_last t name n lasts =
     (case t of
        None \<Rightarrow> Inl (KeyError name)
      | Some (Vector v) \<Rightarrow> Inl IndexError
      | Some (Matrix a) \<Rightarrow>
          sequence (map (\<lambda>b. case index_at a (int b) of
                                 Inl e \<Rightarrow> Inl e
                               | Inr row \<Rightarrow> index_at row (lasts ! b))
                        [0..<n]))"

text \<open>
  Lines 118 to 125. The destination matrix has one row per candidate and two columns; it is
  given by its columns, the latitudes and the longitudes.
\<close>

definition candidate_destination :: "kwargs \<Rightarrow> error + real list list" where
  "candidate_destination kw =
     (case kw ''candidate_latitude_mask'' of
        None \<Rightarrow> Inl (KeyError ''candidate_latitude_mask'')
      | Some (Vector v) \<Rightarrow> Inl ShapeError
      | Some (Matrix candidate_mask) \<Rightarrow>
          (case take_last (kw ''candidate_latitude'') ''candidate_latitude''
                  (length candidate_mask) (candidate_last candidate_mask) of
             Inl e \<Rightarrow> Inl e
           | Inr lat \<Rightarrow>
               (case take_last (kw ''candidate_longitude'') ''candidate_longitude''
                       (length candidate_mask) (candidate_last candidate_mask) of
                  Inl e \<Rightarrow> Inl e
                | Inr lon \<Rightarrow> Inr [lat, lon])))"

text \<open>\<^verbatim>\<open>Model.predict\<close>, lines 104 to 127: one row \<open>[latitude, longitude]\<close> per prefix.\<close>

definition predict :: "data_module \<Rightarrow> 's Model \<Rightarrow> kwargs \<Rightarrow> error + real list list" where
  "predict D self kw =
     (case similarity D self kw of
        Inl e \<Rightarrow> Inl e
      | Inr w \<Rightarrow>
          (case candidate_destination kw of
             Inl e \<Rightarrow> Inl e
           | Inr destination \<Rightarrow> dot w destination))"

section \<open>Reordering the candidates\<close>

text \<open>
  The rows of an array taken in the order \<open>p\<close>, and the keyword arguments in which every array
  whose name starts with \<^verbatim>\<open>candidate_\<close> has its rows so reordered.
\<close>

definition permute :: "nat list \<Rightarrow> 'a list \<Rightarrow> 'a list" where
  "permute p xs = map ((!) xs) p"

fun permute_tensor :: "nat list \<Rightarrow> tensor \<Rightarrow> tensor" where
  "permute_tensor p (Vector v) = Vector (permute p v)"
| "permute_tensor p (Matrix a) = Matrix (permute p a)"

fun rows :: "tensor \<Rightarrow> nat" where
  "rows (Vector v) = length v"
| "rows (Matrix a) = length a"

definition permute_candidates :: "nat list \<Rightarrow> kwargs \<Rightarrow> kwargs" where
  "permute_candidates p kw =
     (\<lambda>k. if take 10 k = ''candidate_'' then map_option (permute_tensor p) (kw k) else kw k)"


section \<open>A small instance\<close>

text \<open>
  An encoder whose recurrent state counts the valid timesteps seen so far (a masked step leaves
  the state as it is, as the masked \<^verbatim>\<open>LSTM\<close> does), whose hidden state is that count, and
  whose other bricks are identities; the standardisation constants are mean \<open>0\<close> and standard
  deviation \<open>1\<close>. The batch has two prefixes of three valid points out of five and three
  candidates of two points.
\<close>

definition counting_config :: "real encoder_config" where
  "counting_config =
     \<lparr> rec_state_dim = 1,
       context_embedder_inputs = [],
       context_embedder_apply = (\<lambda>vs. vs),
       fork_apply = (\<lambda>(x, y). [x, y]),
       forward_initial_state = 0,
       backward_initial_state = 0,
       forward_step = (\<lambda>s x m. m * (s + 1) + (1 - m) * s),
       backward_step = (\<lambda>s x m. m * (s + 1) + (1 - m) * s),
       hidden = (\<lambda>s. [s]),
       rec_to_output = (\<lambda>v. v) \<rparr>"

definition unit_data :: data_module where
  "unit_data = \<lparr> train_gps_mean = (0, 0), train_gps_std = (1, 1) \<rparr>"

definition counting_model :: "bool \<Rightarrow> real Model" where
  "counting_model n =
     Model_init \<lparr> prefix_encoder_config = counting_config,
                  candidate_encoder_config = counting_config,
                  normalize_representation = n \<rparr>"

text \<open>
  A model whose candidate encoder differs from its prefix encoder: its feed-forward network
  doubles every entry.
\<close>

definition doubling_config :: "real encoder_config" where
  "doubling_config = counting_config\<lparr>rec_to_output := map (\<lambda>x. 2 * x)\<rparr>"

definition mixed_model :: "real Model" where
  "mixed_model =
     Model_init \<lparr> prefix_encoder_config = counting_config,
                  candidate_encoder_config = doubling_config,
                  normalize_representation = False \<rparr>"

definition example_batch :: kwargs where
  "example_batch =
     [''latitude'' \<mapsto> Matrix [[5, 6, 7, 0, 0], [1, 2, 3, 0, 0]],
      ''longitude'' \<mapsto> Matrix [[1, 2, 3, 0, 0], [4, 5, 6, 0, 0]],
      ''latitude_mask'' \<mapsto> Matrix [[1, 1, 1, 0, 0], [1, 1, 1, 0, 0]],
      ''candidate_latitude'' \<mapsto> Matrix [[5, 6], [7, 8], [9, 10]],
      ''candidate_longitude'' \<mapsto> Matrix [[1, 2], [3, 4], [5, 6]],
      ''candidate_latitude_mask'' \<mapsto> Matrix [[1, 1], [1, 1], [1, 1]]]"

text \<open>
  A model with normalisation enabled whose feed-forward network ends in a rectifier with bias
  \<open>-2\<close>: it maps the candidates of the batch above to the zero vector. And a batch with the
  same prefixes and no candidate.
\<close>

definition rectifier_config :: "real encoder_config" where
  "rectifier_config = counting_config\<lparr>rec_to_output := map (\<lambda>x. max 0 (x - 2))\<rparr>"

definition rectifier_model :: "real Model" where
  "rectifier_model =
     Model_init \<lparr> prefix_encoder_config = rectifier_config,
                  candidate_encoder_config = rectifier_config,
                  normalize_representation = True \<rparr>"

definition no_candidates_batch :: kwargs where
  "no_candidates_batch =
     [''latitude'' \<mapsto> Matrix [[5, 6, 7, 0, 0], [1, 2, 3, 0, 0]],
      ''longitude'' \<mapsto> Matrix [[1, 2, 3, 0, 0], [4, 5, 6, 0, 0]],
      ''latitude_mask'' \<mapsto> Matrix [[1, 1, 1, 0, 0], [1, 1, 1, 0, 0]],
      ''candidate_latitude'' \<mapsto> Matrix [],
      ''candidate_longitude'' \<mapsto> Matrix [],
      ''candidate_latitude_mask'' \<mapsto> Matrix []]"


section \<open>Properties\<close>

subsection \<open>Auxiliary facts\<close>

lemma RecurrentEncoder_init_sel [simp]:
  "config (RecurrentEncoder_init c) = c"
  "rec_inputs (RecurrentEncoder_init c) = [''latitude'', ''longitude'', ''latitude_mask'']"
  "inputs (RecurrentEncoder_init c) = context_embedder_inputs c @ [''latitude'', ''longitude'', ''latitude_mask'']"
  by (simp_all add: RecurrentEncoder_init_def Let_def)

lemma Model_init_sel [simp]:
  "model_config (Model_init c) = c"
  "prefix_encoder (Model_init c) = RecurrentEncoder_init (prefix_encoder_config c)"
  "candidate_encoder (Model_init c) = RecurrentEncoder_init (candidate_encoder_config c)"
  by (simp_all add: Model_init_def Let_def)

lemma sequence_Inr_iff: "sequence rs = Inr ys \<longleftrightarrow> rs = map Inr ys"
proof (induction rs arbitrary: ys)
  case Nil
  show ?case by auto
next
  case (Cons r rs)
  show ?case
  proof (cases r)
    case (Inl e)
    then show ?thesis by auto
  next
    case (Inr x)
    show ?thesis
    proof (cases "sequence rs")
      case (Inl e)
      have "\<And>zs. rs \<noteq> map Inr zs" using Cons.IH Inl by auto
      with Inl \<open>r = Inr x\<close> show ?thesis by (cases ys) auto
    next
      case (Inr xs)
      with Cons.IH [of xs] have "rs = map Inr xs" by simp
      with Inr \<open>r = Inr x\<close> show ?thesis by (cases ys) (auto simp: inj_map_eq_map)
    qed
  qed
qed

lemma sequence_map_Inr:
  "sequence (map f xs) = Inr ys \<longleftrightarrow> length ys = length xs \<and> (\<forall>i < length xs. f (xs ! i) = Inr (ys ! i))"
  unfolding sequence_Inr_iff by (auto simp: list_eq_iff_nth_eq)

lemma sequence_Inl: "sequence rs = Inl e \<Longrightarrow> Inl e \<in> set rs"
  by (induction rs rule: sequence.induct) (auto split: sum.splits)

lemma sequence_total: "(\<forall>r \<in> set rs. \<exists>x. r = Inr x) \<Longrightarrow> \<exists>ys. sequence rs = Inr ys"
  by (induction rs rule: sequence.induct) (auto split: sum.splits)

lemma sum_list_exp_pos: "row \<noteq> [] \<Longrightarrow> 0 < sum_list (map exp (row :: real list))"
proof (induction row)
  case Nil
  then show ?case by simp
next
  case (Cons a row)
  have "0 \<le> sum_list (map exp row)" by (rule sum_list_nonneg) auto
  moreover have "0 < exp a" by simp
  ultimately have "0 < exp a + sum_list (map exp row)" by (rule add_pos_nonneg [rotated])
  then show ?case by simp
qed

lemma softmax_length [simp]: "length (softmax row) = length row"
  by (simp add: softmax_def)

lemma softmax_nonneg: "w \<in> set (softmax row) \<Longrightarrow> 0 \<le> w"
  by (auto simp: softmax_def intro!: divide_nonneg_nonneg sum_list_nonneg)

lemma softmax_sum: "row \<noteq> [] \<Longrightarrow> sum_list (softmax row) = 1"
proof -
  assume "row \<noteq> []"
  then have pos: "0 < sum_list (map exp row)" by (rule sum_list_exp_pos)
  have "sum_list (softmax row) = sum_list (map exp row) / sum_list (map exp row)"
    unfolding softmax_def divide_inverse by (simp add: sum_list_mult_const o_def)
  with pos show ?thesis by simp
qed

lemma dot_Inr: "dot a b = Inr c \<Longrightarrow> c = map (\<lambda>u. map (dot_product u) b) a"
  by (auto simp: dot_def split: if_splits)

lemma dot_Inr_length: "dot a b = Inr c \<Longrightarrow> u \<in> set a \<Longrightarrow> v \<in> set b \<Longrightarrow> length u = length v"
  by (auto simp: dot_def list_all_iff split: if_splits)

lemma normalized_length:
  "normalized_candidate_representation D self kw = Inr c' \<Longrightarrow>
   candidate_representation D self kw = Inr c \<Longrightarrow> length c' = length c"
  by (auto simp: normalized_candidate_representation_def sequence_map_Inr split: if_splits)

lemma similarity_rows:
  assumes "similarity D self kw = Inr w" and "candidate_representation D self kw = Inr c"
    and "row \<in> set w"
  shows "\<exists>score. length score = length c \<and> row = softmax score"
proof -
  from assms(1) obtain s where s: "similarity_score D self kw = Inr s" "w = map softmax s"
    by (auto simp: similarity_def split: sum.splits)
  from s(1) assms(2) obtain p c' where pc: "dot p c' = Inr s" "length c' = length c"
    by (auto simp: similarity_score_def split: sum.splits dest: normalized_length)
  from assms(3) s(2) obtain r where r: "r \<in> set s" "row = softmax r" by auto
  from dot_Inr [OF pc(1)] r(1) have "length r = length c'" by auto
  with r pc show ?thesis by auto
qed

lemma l2_norm_normalized:
  assumes "\<exists>x \<in> set c. x \<noteq> 0"
  shows "l2_norm (map (\<lambda>x. x / l2_norm c) c) = 1"
proof -
  define s where "s = sum_list (map (\<lambda>x. x ^ 2) c)"
  have nonneg: "0 \<le> s" unfolding s_def by (rule sum_list_nonneg) auto
  from assms obtain x where x: "x \<in> set c" "x \<noteq> 0" by blast
  have "x ^ 2 \<le> s"
    unfolding s_def by (rule member_le_sum_list) (use x in auto)
  moreover from x have "0 < x ^ 2" by simp
  ultimately have pos: "0 < s" by linarith
  have "(y / sqrt s) ^ 2 = y ^ 2 * inverse s" for y
    using nonneg by (simp add: power_divide field_simps)
  then have "sum_list (map (\<lambda>y. (y / sqrt s) ^ 2) c) = sum_list (map (\<lambda>y. y ^ 2 * inverse s) c)"
    by simp
  also have "\<dots> = s * inverse s"
    unfolding s_def by (simp add: sum_list_mult_const)
  also have "\<dots> = 1" using pos by simp
  finally show ?thesis by (simp add: l2_norm_def o_def s_def)
qed

subsection \<open>Evaluation of the small instance\<close>

lemmas counting_eval =
  counting_model_def call_apply_def example_batch_def counting_config_def
  RecurrentEncoder_apply_def last_id_def cast_int64_def path_def rec_apply_def forward_states_def
  backward_states_def rec_in_def path_representation_def index_at_def last_columns_def unit_data_def

lemma example_prefix_representation:
  "prefix_representation unit_data (counting_model n) example_batch = Inr [[3, 2], [3, 2]]"
  by (simp add: prefix_representation_def counting_eval)

lemma example_candidate_representation:
  "candidate_representation unit_data (counting_model n) example_batch = Inr [[2, 1], [2, 1], [2, 1]]"
  by (simp add: candidate_representation_def counting_eval)

lemma example_candidate_destination:
  "candidate_destination example_batch = Inr [[6, 8, 10], [2, 4, 6]]"
  by (simp add: candidate_destination_def example_batch_def take_last_def candidate_last_def
      cast_int64_def index_at_def)

lemma example_normalized:
  "normalized_candidate_representation unit_data (counting_model True) example_batch
     = Inr [[2 / sqrt 5, 1 / sqrt 5], [2 / sqrt 5, 1 / sqrt 5], [2 / sqrt 5, 1 / sqrt 5]]"
  by (simp add: normalized_candidate_representation_def example_candidate_representation
      normalize_row_def l2_norm_def) (simp add: counting_model_def)

lemma example_normalized_off:
  "normalized_candidate_representation unit_data (counting_model False) example_batch
     = Inr [[2, 1], [2, 1], [2, 1]]"
  by (simp add: normalized_candidate_representation_def example_candidate_representation)
     (simp add: counting_model_def)

lemma example_similarity_score:
  "similarity_score unit_data (counting_model False) example_batch = Inr [[8, 8, 8], [8, 8, 8]]"
  by (simp add: similarity_score_def example_prefix_representation example_normalized_off
      dot_def dot_product_def)

lemma softmax_uniform3: "softmax [s, s, s] = [1 / 3, 1 / 3, 1 / 3]"
  by (simp add: softmax_def)

lemma example_similarity:
  "similarity unit_data (counting_model False) example_batch
     = Inr [[1 / 3, 1 / 3, 1 / 3], [1 / 3, 1 / 3, 1 / 3]]"
  by (simp add: similarity_def example_similarity_score softmax_uniform3)

lemma example_predict:
  "predict unit_data (counting_model False) example_batch = Inr [[8, 4], [8, 4]]"
  by (simp add: predict_def example_similarity example_candidate_destination dot_def dot_product_def)
lemma example_similarity_score_normalized:
  "similarity_score unit_data (counting_model True) example_batch
     = Inr [[8 / sqrt 5, 8 / sqrt 5, 8 / sqrt 5], [8 / sqrt 5, 8 / sqrt 5, 8 / sqrt 5]]"
  by (simp add: similarity_score_def example_prefix_representation example_normalized
      dot_def dot_product_def add_divide_distrib [symmetric])



lemma rectifier_prefix_representation:
  "prefix_representation unit_data rectifier_model example_batch = Inr [[1, 0], [1, 0]]"
  by (simp add: prefix_representation_def rectifier_model_def rectifier_config_def counting_eval)

lemma rectifier_candidate_representation:
  "candidate_representation unit_data rectifier_model example_batch = Inr [[0, 0], [0, 0], [0, 0]]"
  by (simp add: candidate_representation_def rectifier_model_def rectifier_config_def counting_eval)

lemma rectifier_normalized:
  "normalized_candidate_representation unit_data rectifier_model example_batch = Inl NonFinite"
  by (simp add: normalized_candidate_representation_def rectifier_candidate_representation
      normalize_row_def l2_norm_def) (simp add: rectifier_model_def)

lemma rectifier_similarity:
  "similarity unit_data rectifier_model example_batch = Inl NonFinite"
  by (simp add: similarity_def similarity_score_def rectifier_prefix_representation
      rectifier_normalized)

lemma no_candidates_prefix_representation:
  "prefix_representation unit_data (counting_model False) no_candidates_batch = Inr [[3, 2], [3, 2]]"
  by (simp add: prefix_representation_def counting_model_def call_apply_def no_candidates_batch_def
      counting_config_def RecurrentEncoder_apply_def last_id_def cast_int64_def path_def
      rec_apply_def forward_states_def backward_states_def rec_in_def path_representation_def
      index_at_def last_columns_def unit_data_def)

lemma no_candidates_candidate_representation:
  "candidate_representation unit_data (counting_model False) no_candidates_batch = Inr []"
  by (simp add: candidate_representation_def counting_model_def call_apply_def no_candidates_batch_def
      counting_config_def RecurrentEncoder_apply_def last_id_def unit_data_def)

lemma no_candidates_similarity:
  "similarity unit_data (counting_model False) no_candidates_batch = Inr [[], []]"
  by (simp add: similarity_def similarity_score_def no_candidates_prefix_representation
      normalized_candidate_representation_def no_candidates_candidate_representation
      dot_def softmax_def)

lemma no_candidates_destination:
  "candidate_destination no_candidates_batch = Inr [[], []]"
  by (simp add: candidate_destination_def no_candidates_batch_def take_last_def candidate_last_def)

subsection \<open>Masks\<close>

lemma binary_row_sum: "\<forall>x \<in> set row. x = 0 \<or> x = (1::real) \<Longrightarrow>
    \<exists>n. sum_list row = real n \<and> n \<le> length row"
proof (induction row)
  case Nil
  show ?case by simp
next
  case (Cons x row)
  then obtain n where n: "sum_list row = real n" "n \<le> length row" by auto
  from Cons.prems have "x = 0 \<or> x = 1" by simp
  then show ?case
  proof
    assume "x = 0"
    with n show ?thesis by (intro exI [of _ n]) simp
  next
    assume "x = 1"
    with n show ?thesis by (intro exI [of _ "Suc n"]) simp
  qed
qed

lemma cast_int64_of_nat_minus_one: "cast_int64 (real n - 1) = int n - 1"
proof (cases n)
  case 0
  have "\<lceil>- 1 :: real\<rceil> = - 1"
    using ceiling_of_int [of "- 1", where 'a = real] by simp
  with 0 show ?thesis by (simp add: cast_int64_def)
next
  case (Suc k)
  then show ?thesis by (simp add: cast_int64_def)
qed

text \<open>
  C7. For a binary mask row, the last-valid-index computation of line 61 (\<open>last_id\<close>, in
  \<^verbatim>\<open>RecurrentEncoder.apply\<close>) and that of line 119 (\<open>candidate_last\<close>, in \<^verbatim>\<open>Model.predict\<close>)
  give, for a row with at least one valid position, an index that is non-negative and below the
  length of the row, and for a row with no valid position the negative index \<open>-1\<close>.
\<close>

theorem last_valid_index_range:
  assumes "b < length msk"
    and "\<forall>x \<in> set (msk ! b). x = 0 \<or> x = 1"
  shows "(1 \<le> sum_list (msk ! b) \<longrightarrow>
            0 \<le> last_id msk ! b \<and> last_id msk ! b < int (length (msk ! b))
          \<and> 0 \<le> candidate_last msk ! b \<and> candidate_last msk ! b < int (length (msk ! b)))
       \<and> (sum_list (msk ! b) = 0 \<longrightarrow> last_id msk ! b = - 1 \<and> candidate_last msk ! b = - 1)"
proof -
  from binary_row_sum [OF assms(2)] obtain n
    where n: "sum_list (msk ! b) = real n" "n \<le> length (msk ! b)" by blast
  have "last_id msk ! b = int n - 1" "candidate_last msk ! b = int n - 1"
    using assms(1) n(1) by (simp_all add: last_id_def candidate_last_def cast_int64_of_nat_minus_one)
  with n show ?thesis by auto
qed

theorem last_valid_index_range_witness:
  "last_id [[1, 1, 1, 0, 0], [0, 0, 0, 0, 0]] ! 0 = 2
   \<and> candidate_last [[1, 1, 1, 0, 0], [0, 0, 0, 0, 0]] ! 0 = 2
   \<and> last_id [[1, 1, 1, 0, 0], [0, 0, 0, 0, 0]] ! 1 = - 1
   \<and> candidate_last [[1, 1, 1, 0, 0], [0, 0, 0, 0, 0]] ! 1 = - 1"
proof -
  have "last_id [[1, 1, 1, 0, 0], [0, 0, 0, 0, 0]] ! 0 = 2
        \<and> candidate_last [[1, 1, 1, 0, 0], [0, 0, 0, 0, 0]] ! 0 = 2"
    using last_valid_index_range [of 0 "[[1, 1, 1, 0, 0], [0, 0, 0, 0, 0]]"]
    by (simp add: last_id_def candidate_last_def cast_int64_def)
  moreover have "last_id [[1, 1, 1, 0, 0], [0, 0, 0, 0, 0]] ! 1 = - 1
        \<and> candidate_last [[1, 1, 1, 0, 0], [0, 0, 0, 0, 0]] ! 1 = - 1"
    using last_valid_index_range [of 1 "[[1, 1, 1, 0, 0], [0, 0, 0, 0, 0]]"] by simp
  ultimately show ?thesis by simp
qed

subsection \<open>Declared input names\<close>

text \<open>
  C8. The encoder's inputs are the context embedder's inputs followed by \<^verbatim>\<open>latitude\<close>,
  \<^verbatim>\<open>longitude\<close>, \<^verbatim>\<open>latitude_mask\<close>; the inputs of \<^verbatim>\<open>predict\<close> are the prefix encoder's inputs
  followed by the candidate encoder's inputs, each prefixed with \<^verbatim>\<open>candidate_\<close>; the inputs of
  \<^verbatim>\<open>cost\<close> are those of \<^verbatim>\<open>predict\<close> followed by the two ground-truth destination keys.
\<close>

theorem declared_inputs:
  "inputs (RecurrentEncoder_init ec) =
     context_embedder_inputs ec @ [''latitude'', ''longitude'', ''latitude_mask'']
   \<and> predict_inputs (Model_init mc) =
       inputs (prefix_encoder (Model_init mc))
       @ map (\<lambda>k. ''candidate_'' @ k) (inputs (candidate_encoder (Model_init mc)))
   \<and> predict_inputs (Model_init mc) =
       (context_embedder_inputs (prefix_encoder_config mc)
          @ [''latitude'', ''longitude'', ''latitude_mask''])
       @ map (\<lambda>k. ''candidate_'' @ k) (context_embedder_inputs (candidate_encoder_config mc))
       @ [''candidate_latitude'', ''candidate_longitude'', ''candidate_latitude_mask'']
   \<and> cost_inputs (Model_init mc) =
       predict_inputs (Model_init mc) @ [''destination_latitude'', ''destination_longitude'']"
  by (simp add: RecurrentEncoder_init_def Model_init_def predict_inputs_def cost_inputs_def Let_def)


subsection \<open>Attention and prediction\<close>

text \<open>
  C4. Whenever the attention matrix of \<^verbatim>\<open>predict\<close> is computed as a matrix of numbers (no
  failure is propagated, and the normalisation divides by no zero norm) and there is at least
  one candidate, each of its rows (the softmax of a row of the similarity scores) sums to \<open>1\<close>.
\<close>

theorem attention_rows_sum_to_one:
  assumes "similarity D self kw = Inr w"
    and "candidate_representation D self kw = Inr c" and "c \<noteq> []"
    and "row \<in> set w"
  shows "sum_list row = 1"
proof -
  from similarity_rows [OF assms(1,2,4)] obtain score
    where "length score = length c" "row = softmax score" by blast
  with assms(3) have "score \<noteq> []" by auto
  with \<open>row = softmax score\<close> show ?thesis by (simp add: softmax_sum)
qed


theorem attention_rows_sum_to_one_witness:
  "similarity unit_data (counting_model False) example_batch
     = Inr [[1 / 3, 1 / 3, 1 / 3], [1 / 3, 1 / 3, 1 / 3]]
   \<and> candidate_representation unit_data (counting_model False) example_batch
     = Inr [[2, 1], [2, 1], [2, 1]]
   \<and> sum_list [1 / 3, 1 / 3, 1 / 3 :: real] = 1"
  using attention_rows_sum_to_one [OF example_similarity example_candidate_representation,
      of "[1 / 3, 1 / 3, 1 / 3]"]
  by (simp add: example_similarity example_candidate_representation)

text \<open>
  C4 does not hold of every batch. With normalisation enabled and a candidate representation
  that is the zero vector, the normalisation is \<open>0 / 0\<close>: the attention rows are not numbers.
  With no candidate, each attention row is empty and sums to \<open>0\<close>.
\<close>

theorem attention_rows_counterexample:
  "candidate_representation unit_data rectifier_model example_batch = Inr [[0, 0], [0, 0], [0, 0]]
   \<and> similarity unit_data rectifier_model example_batch = Inl NonFinite
   \<and> similarity unit_data (counting_model False) no_candidates_batch = Inr [[], []]
   \<and> sum_list ([] :: real list) \<noteq> 1"
  by (simp add: rectifier_candidate_representation rectifier_similarity no_candidates_similarity)

lemma similarity_score_entry:
  assumes "normalize_representation (model_config self)"
    and "prefix_representation D self kw = Inr p"
    and "candidate_representation D self kw = Inr c"
    and "similarity_score D self kw = Inr score"
    and "i < length p" and "j < length c"
  shows "score ! i ! j = dot_product (p ! i) (map (\<lambda>x. x / l2_norm (c ! j)) (c ! j))"
proof -
  from assms(1,2,3,4) obtain c' where c': "sequence (map normalize_row c) = Inr c'"
    and d: "dot p c' = Inr score"
    by (auto simp: similarity_score_def normalized_candidate_representation_def split: sum.splits)
  from c' assms(6) have len: "length c' = length c"
    and "normalize_row (c ! j) = Inr (c' ! j)"
    by (auto simp: sequence_map_Inr)
  then have "c' ! j = map (\<lambda>x. x / l2_norm (c ! j)) (c ! j)"
    by (auto simp: normalize_row_def split: if_splits)
  with dot_Inr [OF d] assms(5,6) len show ?thesis by simp
qed

text \<open>
  C5. With \<open>normalize_representation\<close> enabled, the normalisation of a candidate
  representation that is not the zero vector succeeds and gives a row of L2 norm \<open>1\<close>; that
  row is the one in the normalised candidate representation, and the one each similarity score
  of that candidate is the dot product of a prefix representation with.
\<close>

theorem normalized_candidate_unit_norm:
  assumes "normalize_representation (model_config self)"
    and "candidate_representation D self kw = Inr c"
    and "j < length c" and "\<exists>x \<in> set (c ! j). x \<noteq> 0"
  shows "normalize_row (c ! j) = Inr (map (\<lambda>x. x / l2_norm (c ! j)) (c ! j))
       \<and> l2_norm (map (\<lambda>x. x / l2_norm (c ! j)) (c ! j)) = 1
       \<and> (\<forall>cs. normalized_candidate_representation D self kw = Inr cs \<longrightarrow> l2_norm (cs ! j) = 1)
       \<and> (\<forall>p score i. prefix_representation D self kw = Inr p
             \<longrightarrow> similarity_score D self kw = Inr score \<longrightarrow> i < length p
             \<longrightarrow> score ! i ! j = dot_product (p ! i) (map (\<lambda>x. x / l2_norm (c ! j)) (c ! j)))"
proof -
  have "l2_norm (c ! j) \<noteq> 0"
  proof
    assume "l2_norm (c ! j) = 0"
    then have "l2_norm (map (\<lambda>x. x / l2_norm (c ! j)) (c ! j)) = 0"
      by (simp add: l2_norm_def o_def)
    with l2_norm_normalized [OF assms(4)] show False by simp
  qed
  then have n: "normalize_row (c ! j) = Inr (map (\<lambda>x. x / l2_norm (c ! j)) (c ! j))"
    by (simp add: normalize_row_def)
  have "cs ! j = map (\<lambda>x. x / l2_norm (c ! j)) (c ! j)"
    if "normalized_candidate_representation D self kw = Inr cs" for cs
    using that assms(1,2,3) n
    by (auto simp: normalized_candidate_representation_def sequence_map_Inr)
  with n l2_norm_normalized [OF assms(4)]
    similarity_score_entry [OF assms(1) _ assms(2) _ _ assms(3)]
  show ?thesis by simp
qed

theorem normalized_candidate_unit_norm_witness:
  "normalized_candidate_representation unit_data (counting_model True) example_batch
     = Inr [[2 / sqrt 5, 1 / sqrt 5], [2 / sqrt 5, 1 / sqrt 5], [2 / sqrt 5, 1 / sqrt 5]]
   \<and> l2_norm [2 / sqrt 5, 1 / sqrt 5] = 1
   \<and> similarity_score unit_data (counting_model True) example_batch
     = Inr [[8 / sqrt 5, 8 / sqrt 5, 8 / sqrt 5], [8 / sqrt 5, 8 / sqrt 5, 8 / sqrt 5]]
   \<and> 8 / sqrt 5 = dot_product [3, 2] [2 / sqrt 5, 1 / sqrt 5]"
proof -
  have flag: "normalize_representation (model_config (counting_model True))"
    by (simp add: counting_model_def)
  note inst = normalized_candidate_unit_norm [OF flag example_candidate_representation, of 0]
  have "l2_norm ([[2 / sqrt 5, 1 / sqrt 5], [2 / sqrt 5, 1 / sqrt 5], [2 / sqrt 5, 1 / sqrt 5]] ! 0) = 1"
    using inst example_normalized by simp
  moreover have "[[8 / sqrt 5, 8 / sqrt 5, 8 / sqrt 5], [8 / sqrt 5, 8 / sqrt 5, 8 / sqrt 5]] ! 0 ! 0
      = dot_product ([[3, 2], [3, 2]] ! 0) (map (\<lambda>x. x / l2_norm ([[2, 1], [2, 1], [2, 1]] ! 0))
          ([[2, 1], [2, 1], [2, 1]] ! 0))"
  proof -
    from inst have "\<forall>p score i. prefix_representation unit_data (counting_model True) example_batch = Inr p
        \<longrightarrow> similarity_score unit_data (counting_model True) example_batch = Inr score
        \<longrightarrow> i < length p
        \<longrightarrow> score ! i ! 0 = dot_product (p ! i)
              (map (\<lambda>x. x / l2_norm ([[2, 1], [2, 1], [2, 1]] ! 0)) ([[2, 1], [2, 1], [2, 1]] ! 0))"
      by simp
    from this [rule_format, OF example_prefix_representation example_similarity_score_normalized,
        of 0]
    show ?thesis by simp
  qed
  then have "8 / sqrt 5 = dot_product [3, 2] [2 / sqrt 5, 1 / sqrt 5]"
    by (simp add: l2_norm_def)
  ultimately show ?thesis
    by (simp add: example_normalized example_similarity_score_normalized)
qed

lemma dot_product_upper:
  assumes "length w = length xs" and "\<forall>a \<in> set w. 0 \<le> a" and "\<forall>x \<in> set xs. x \<le> M"
  shows "dot_product w xs \<le> M * sum_list w"
  using assms
proof (induction w xs rule: list_induct2)
  case Nil
  show ?case by (simp add: dot_product_def)
next
  case (Cons a w x xs)
  then have "dot_product w xs \<le> M * sum_list w" by simp
  moreover from Cons.prems have "a * x \<le> a * M" by (intro mult_left_mono) auto
  ultimately show ?case by (simp add: dot_product_def algebra_simps)
qed

lemma dot_product_lower:
  assumes "length w = length xs" and "\<forall>a \<in> set w. 0 \<le> a" and "\<forall>x \<in> set xs. m \<le> x"
  shows "m * sum_list w \<le> dot_product w xs"
  using assms
proof (induction w xs rule: list_induct2)
  case Nil
  show ?case by (simp add: dot_product_def)
next
  case (Cons a w x xs)
  then have "m * sum_list w \<le> dot_product w xs" by simp
  moreover from Cons.prems have "a * m \<le> a * x" by (intro mult_left_mono) auto
  ultimately show ?case by (simp add: dot_product_def algebra_simps)
qed

lemma convex_combination_bounds:
  assumes "length w = length xs" and "xs \<noteq> []" and "\<forall>a \<in> set w. 0 \<le> a" and "sum_list w = 1"
  shows "Min (set xs) \<le> dot_product w xs \<and> dot_product w xs \<le> Max (set xs)"
  using dot_product_upper [OF assms(1,3), of "Max (set xs)"]
    dot_product_lower [OF assms(1,3), of "Min (set xs)"] assms(2,4)
  by simp

lemma candidate_destination_shape:
  assumes "candidate_destination kw = Inr d"
  shows "\<exists>lat lon. d = [lat, lon] \<and> length lat = length lon"
  using assms
  by (auto simp: candidate_destination_def take_last_def sequence_map_Inr
      split: option.splits tensor.splits sum.splits)

lemma similarity_Inr:
  assumes "similarity D self kw = Inr w"
  shows "\<exists>s. similarity_score D self kw = Inr s \<and> w = map softmax s"
  using assms by (auto simp: similarity_def split: sum.splits)

text \<open>
  C3. Whenever \<^verbatim>\<open>predict\<close> returns numbers (no failure is propagated, and the normalisation
  divides by no zero norm) and there is at least one candidate, each predicted destination has
  two coordinates, and each lies between the minimum and the maximum of that coordinate over
  the candidate destinations: the prediction is a convex combination of the candidate
  destinations, with the softmax weights.
\<close>

theorem prediction_in_candidate_range:
  assumes "predict D self kw = Inr out"
    and "candidate_destination kw = Inr [lat, lon]"
    and "lat \<noteq> []"
    and "i < length out"
  shows "length (out ! i) = 2
       \<and> Min (set lat) \<le> out ! i ! 0 \<and> out ! i ! 0 \<le> Max (set lat)
       \<and> Min (set lon) \<le> out ! i ! 1 \<and> out ! i ! 1 \<le> Max (set lon)"
proof -
  from assms(1,2) obtain w where w: "similarity D self kw = Inr w" "dot w [lat, lon] = Inr out"
    by (auto simp: predict_def split: sum.splits)
  from similarity_Inr [OF w(1)] obtain s where s: "w = map softmax s" by blast
  from candidate_destination_shape [OF assms(2)] have len: "length lat = length lon" by simp
  from dot_Inr [OF w(2)] have out: "out = map (\<lambda>u. [dot_product u lat, dot_product u lon]) w"
    by simp
  with assms(4) have i: "i < length w" by simp
  define u where "u = w ! i"
  from i have "u \<in> set w" by (simp add: u_def)
  with dot_Inr_length [OF w(2)] have ulen: "length u = length lat" by simp
  from i s have "u = softmax (s ! i)" by (simp add: u_def)
  with ulen assms(3) have "s ! i \<noteq> []" by auto
  with \<open>u = softmax (s ! i)\<close> have sum: "sum_list u = 1" and nonneg: "\<forall>a \<in> set u. 0 \<le> a"
    by (auto simp: softmax_sum dest: softmax_nonneg)
  from assms(3) len have "lon \<noteq> []" by auto
  from convex_combination_bounds [OF ulen assms(3) nonneg sum]
    convex_combination_bounds [OF _ \<open>lon \<noteq> []\<close> nonneg sum] ulen len out i
  show ?thesis by (simp add: u_def)
qed

theorem prediction_in_candidate_range_witness:
  "predict unit_data (counting_model False) example_batch = Inr [[8, 4], [8, 4]]
   \<and> candidate_destination example_batch = Inr [[6, 8, 10], [2, 4, 6]]
   \<and> Min (set [6, 8, 10 :: real]) \<le> 8 \<and> (8 :: real) \<le> Max (set [6, 8, 10])
   \<and> Min (set [2, 4, 6 :: real]) \<le> 4 \<and> (4 :: real) \<le> Max (set [2, 4, 6])"
  using prediction_in_candidate_range [OF example_predict example_candidate_destination, of 0]
  by (simp add: example_predict example_candidate_destination)

text \<open>
  C3 does not hold of every batch. With normalisation enabled and a candidate representation
  that is the zero vector, the normalisation is \<open>0 / 0\<close> and the predicted coordinates are
  not numbers, so they lie between no two candidate coordinates. With no candidate, the
  prediction is \<open>[0, 0]\<close> and there is no candidate destination to bound it.
\<close>

theorem prediction_range_counterexample:
  "candidate_representation unit_data rectifier_model example_batch = Inr [[0, 0], [0, 0], [0, 0]]
   \<and> candidate_destination example_batch = Inr [[6, 8, 10], [2, 4, 6]]
   \<and> predict unit_data rectifier_model example_batch = Inl NonFinite
   \<and> candidate_destination no_candidates_batch = Inr [[], []]
   \<and> predict unit_data (counting_model False) no_candidates_batch = Inr [[0, 0], [0, 0]]"
  by (simp add: rectifier_candidate_representation example_candidate_destination
      no_candidates_destination predict_def rectifier_similarity no_candidates_similarity
      dot_def dot_product_def)

text \<open>
  C6. Two prefixes, three candidates and equal similarity scores: each predicted destination
  is the unweighted mean of the three candidate destinations.
\<close>

theorem uniform_attention_mean:
  assumes "similarity_score D self kw = Inr [[s, s, s], [s, s, s]]"
    and "candidate_destination kw = Inr [[a1, a2, a3], [b1, b2, b3]]"
  shows "predict D self kw =
           Inr [[(a1 + a2 + a3) / 3, (b1 + b2 + b3) / 3], [(a1 + a2 + a3) / 3, (b1 + b2 + b3) / 3]]"
  using assms
  by (simp add: predict_def similarity_def softmax_uniform3 dot_def dot_product_def)

theorem uniform_attention_mean_witness:
  "similarity_score unit_data (counting_model False) example_batch = Inr [[8, 8, 8], [8, 8, 8]]
   \<and> candidate_destination example_batch = Inr [[6, 8, 10], [2, 4, 6]]
   \<and> predict unit_data (counting_model False) example_batch
       = Inr [[(6 + 8 + 10) / 3, (2 + 4 + 6) / 3], [(6 + 8 + 10) / 3, (2 + 4 + 6) / 3]]"
  using uniform_attention_mean [OF example_similarity_score example_candidate_destination]
    example_similarity_score example_candidate_destination
  by simp


lemma mixed_model_candidate_representation:
  "candidate_representation unit_data mixed_model example_batch = Inr [[2, 1], [2, 1], [2, 1]]"
  "call_apply unit_data (candidate_encoder mixed_model)
     [''latitude'' \<mapsto> Matrix [[5, 6], [7, 8], [9, 10]],
      ''longitude'' \<mapsto> Matrix [[1, 2], [3, 4], [5, 6]],
      ''latitude_mask'' \<mapsto> Matrix [[1, 1], [1, 1], [1, 1]]] = Inr [[4, 2], [4, 2], [4, 2]]"
  by (simp_all add: candidate_representation_def mixed_model_def doubling_config_def counting_eval)

text \<open>
  C10. With \<open>normalize_representation\<close> enabled, a similarity score is the dot product of the
  prefix representation as the encoder returned it with the candidate representation divided
  by its norm, which has norm \<open>1\<close> when the candidate representation is not the zero vector.
\<close>

theorem similarity_score_asymmetric:
  assumes "normalize_representation (model_config self)"
    and "prefix_representation D self kw = Inr p"
    and "candidate_representation D self kw = Inr c"
    and "similarity_score D self kw = Inr score"
    and "i < length p" and "j < length c"
  shows "score ! i ! j = dot_product (p ! i) (map (\<lambda>x. x / l2_norm (c ! j)) (c ! j))
       \<and> ((\<exists>x \<in> set (c ! j). x \<noteq> 0) \<longrightarrow> l2_norm (map (\<lambda>x. x / l2_norm (c ! j)) (c ! j)) = 1)"
proof -
  from assms(1,2,3,4) obtain c' where c': "sequence (map normalize_row c) = Inr c'"
    and d: "dot p c' = Inr score"
    by (auto simp: similarity_score_def normalized_candidate_representation_def split: sum.splits)
  from c' assms(6) have len: "length c' = length c"
    and "normalize_row (c ! j) = Inr (c' ! j)"
    by (auto simp: sequence_map_Inr)
  then have "c' ! j = map (\<lambda>x. x / l2_norm (c ! j)) (c ! j)"
    by (auto simp: normalize_row_def split: if_splits)
  with dot_Inr [OF d] assms(5,6) len l2_norm_normalized [of "c ! j"] show ?thesis by simp
qed

theorem similarity_score_asymmetric_witness:
  "prefix_representation unit_data (counting_model True) example_batch = Inr [[3, 2], [3, 2]]
   \<and> candidate_representation unit_data (counting_model True) example_batch
       = Inr [[2, 1], [2, 1], [2, 1]]
   \<and> similarity_score unit_data (counting_model True) example_batch
       = Inr [[8 / sqrt 5, 8 / sqrt 5, 8 / sqrt 5], [8 / sqrt 5, 8 / sqrt 5, 8 / sqrt 5]]
   \<and> 8 / sqrt 5 = dot_product [3, 2] (map (\<lambda>x. x / l2_norm [2, 1]) [2, 1])
   \<and> l2_norm (map (\<lambda>x. x / l2_norm [2, 1]) [2, 1]) = 1
   \<and> l2_norm [3, 2] = sqrt 13"
proof -
  have flag: "normalize_representation (model_config (counting_model True))"
    by (simp add: counting_model_def)
  have "8 / sqrt 5 = dot_product [3, 2] (map (\<lambda>x. x / l2_norm [2, 1]) [2, 1])
        \<and> l2_norm (map (\<lambda>x. x / l2_norm [2, 1]) [2, 1]) = 1"
    using similarity_score_asymmetric [OF flag example_prefix_representation
        example_candidate_representation example_similarity_score_normalized, of 0 0]
    by simp
  moreover have "l2_norm [3, 2] = sqrt 13" by (simp add: l2_norm_def)
  ultimately show ?thesis
    by (simp add: example_prefix_representation example_candidate_representation
        example_similarity_score_normalized)
qed

lemma path_representation_index:
  assumes "2 \<le> s" and "s \<le> length p"
  shows "path_representation cfg p (int s - 1)
         = Inr (last_columns (rec_state_dim cfg) (p ! 0), take (rec_state_dim cfg) (p ! (s - 2)))"
proof -
  have "nat (int s - 2) = s - 2" by simp
  moreover from assms have "p \<noteq> []" by auto
  ultimately show ?thesis
    using assms by (simp add: path_representation_def index_at_def)
qed

text \<open>
  C1. For the mask row \<open>[1, 1, 1, 0, 0]\<close>, \<open>last_id\<close> is \<open>2\<close>, and the forward states of the
  counting encoder are \<open>1, 2, 3, 3, 3\<close>. Line 64 indexes the path at \<open>last_id - 1\<close>: the forward
  component it extracts is \<open>[2]\<close>, the forward state at timestep \<open>1\<close>, not the state \<open>[3]\<close> at the
  last valid timestep \<open>2\<close>.
\<close>

theorem forward_component_off_by_one:
  "last_id [[1, 1, 1, 0, 0]] = [2]
   \<and> forward_states counting_config
        (map (fork_apply counting_config) (rec_in unit_data [5, 6, 7, 0, 0] [1, 2, 3, 0, 0]))
        [1, 1, 1, 0, 0]
      = [[1], [2], [3], [3], [3]]
   \<and> path_representation counting_config
        (path unit_data counting_config [5, 6, 7, 0, 0] [1, 2, 3, 0, 0] [1, 1, 1, 0, 0])
        (last_id [[1, 1, 1, 0, 0]] ! 0)
      = Inr ([3], [2])"
  by (simp add: counting_eval)

subsection \<open>Reordering the candidates\<close>

lemma perm_length: "mset p = mset [0..<n] \<Longrightarrow> length p = n"
  using mset_eq_length by fastforce

lemma perm_set: "mset p = mset [0..<n] \<Longrightarrow> set p = {0..<n}"
  using mset_eq_setD by fastforce

lemma perm_nth_less: "mset p = mset [0..<n] \<Longrightarrow> i < n \<Longrightarrow> p ! i < n"
  using perm_set [of p n] perm_length [of p n] nth_mem [of i p] by auto

lemma permute_length [simp]: "length (permute p xs) = length p"
  by (simp add: permute_def)

lemma permute_nth [simp]: "i < length p \<Longrightarrow> permute p xs ! i = xs ! (p ! i)"
  by (simp add: permute_def)

lemma permute_mset:
  assumes "mset p = mset [0..<n]" and "length xs = n"
  shows "mset (permute p xs) = mset xs"
proof -
  have "mset (permute p xs) = image_mset ((!) xs) (mset p)" by (simp add: permute_def)
  also have "\<dots> = mset (map ((!) xs) [0..<n])" by (simp only: assms(1) mset_map)
  also have "map ((!) xs) [0..<n] = xs" using assms(2) map_nth [of xs] by simp
  finally show ?thesis .
qed

lemma permute_set:
  "mset p = mset [0..<n] \<Longrightarrow> length xs = n \<Longrightarrow> set (permute p xs) = set xs"
  using permute_mset [of p n xs] mset_eq_setD by blast

lemma permute_map:
  assumes "mset p = mset [0..<n]" and "length xs = n"
  shows "map f (permute p xs) = permute p (map f xs)"
  using assms perm_set [OF assms(1)] by (auto simp: permute_def)

lemma map_perm:
  assumes "mset p = mset [0..<n]"
  shows "map F p = permute p (map F [0..<n])"
  using perm_set [OF assms] by (auto simp: permute_def)

lemma permute_sum_list:
  fixes xs :: "real list"
  assumes "mset p = mset [0..<n]" and "length xs = n"
  shows "sum_list (permute p xs) = sum_list xs"
  using permute_mset [OF assms] by (metis sum_mset_sum_list)


lemma sequence_permute:
  assumes "mset p = mset [0..<n]" and "length rs = n"
    and "\<forall>e. Inl e \<in> set rs \<longrightarrow> e = e0"
  shows "sequence (permute p rs) = map_sum id (permute p) (sequence rs)"
proof (cases "sequence rs")
  case (Inr ys)
  then have rs: "rs = map Inr ys" by (simp add: sequence_Inr_iff)
  with assms(2) have "length ys = n" by simp
  with rs have "permute p rs = map Inr (permute p ys)"
    by (simp add: permute_map [OF assms(1)])
  then have "sequence (permute p rs) = Inr (permute p ys)" by (simp add: sequence_Inr_iff)
  with Inr show ?thesis by simp
next
  case (Inl e)
  then have "Inl e \<in> set rs" by (rule sequence_Inl)
  with assms(3) have e: "e = e0" by simp
  have same: "set (permute p rs) = set rs" by (rule permute_set [OF assms(1,2)])
  have "sequence (permute p rs) = Inl e0"
  proof (cases "sequence (permute p rs)")
    case (Inl e')
    then have "Inl e' \<in> set rs" using sequence_Inl same by blast
    with assms(3) Inl show ?thesis by simp
  next
    case (Inr ys)
    then have "permute p rs = map Inr ys" by (simp add: sequence_Inr_iff)
    with same \<open>Inl e \<in> set rs\<close> show ?thesis by (metis Inl_Inr_False imageE list.set_map)
  qed
  with Inl e show ?thesis by simp
qed

lemma list_all2_permute:
  assumes "mset p = mset [0..<n]" and "length xs = n" and "length ys = n"
  shows "list_all2 P (permute p xs) (permute p ys) = list_all2 P xs ys"
proof -
  have "(\<forall>i < length p. P (xs ! (p ! i)) (ys ! (p ! i))) = (\<forall>j \<in> set p. P (xs ! j) (ys ! j))"
    by (metis in_set_conv_nth)
  then show ?thesis
    using assms perm_set [OF assms(1)] perm_length [OF assms(1)]
    by (auto simp: list_all2_conv_all_nth)
qed

lemma index_map_permute:
  assumes "mset p = mset [0..<n]" and "\<forall>b < n. F' b = F (p ! b)"
  shows "map F' [0..<n] = permute p (map F [0..<n])"
proof (rule nth_equalityI)
  show "length (map F' [0..<n]) = length (permute p (map F [0..<n]))"
    using perm_length [OF assms(1)] by simp
next
  fix i
  assume "i < length (map F' [0..<n])"
  then have i: "i < n" by simp
  with perm_nth_less [OF assms(1)] have "p ! i < n" by simp
  with i assms(2) perm_length [OF assms(1)]
  show "map F' [0..<n] ! i = permute p (map F [0..<n]) ! i" by simp
qed

lemma gather_cong:
  "\<forall>name \<in> set names. kw' (pre @ name) = kw (pre @ name) \<Longrightarrow>
   gather pre names kw' = gather pre names kw"
  by (induction names) (auto split: option.splits sum.splits)

lemma permute_candidates_key:
  "permute_candidates p kw (''candidate_'' @ name)
     = map_option (permute_tensor p) (kw (''candidate_'' @ name))"
  by (simp add: permute_candidates_def)

lemma gather_map_option:
  assumes "\<forall>name \<in> set names. kw' (pre @ name) = map_option f (kw (pre @ name))"
  shows "gather pre names kw' = map_sum id (\<lambda>d. map_option f \<circ> d) (gather pre names kw)"
  using assms
proof (induction names)
  case Nil
  show ?case by (simp add: fun_eq_iff)
next
  case (Cons name names)
  have IH: "gather pre names kw' = map_sum id (\<lambda>d. map_option f \<circ> d) (gather pre names kw)"
    by (rule Cons.IH) (use Cons.prems in simp)
  have k: "kw' (pre @ name) = map_option f (kw (pre @ name))"
    using Cons.prems by simp
  show ?case
  proof (cases "kw (pre @ name)")
    case None
    with k show ?thesis by simp
  next
    case (Some v)
    show ?thesis
    proof (cases "gather pre names kw")
      case (Inl e)
      with Some k IH show ?thesis by simp
    next
      case (Inr d)
      with Some k IH show ?thesis by (simp add: fun_eq_iff)
    qed
  qed
qed

lemma gather_rows:
  assumes "gather pre names kw = Inr d"
    and "\<forall>name \<in> set names. \<forall>t. kw (pre @ name) = Some t \<longrightarrow> rows t = n"
    and "d k = Some t"
  shows "rows t = n"
  using assms
proof (induction names arbitrary: d)
  case Nil
  then show ?case by auto
next
  case (Cons name names)
  from Cons.prems(1) obtain v d' where v: "kw (pre @ name) = Some v"
    and d': "gather pre names kw = Inr d'" and d: "d = d'(name \<mapsto> v)"
    by (auto split: option.splits sum.splits)
  from Cons.prems(2) v have "rows v = n" by simp
  with Cons.IH [OF d'] Cons.prems(2,3) d show ?case by (auto split: if_splits)
qed

lemma rows_permute_tensor [simp]: "rows (permute_tensor p t) = length p"
  by (cases t) simp_all

lemma context_features_permute:
  assumes "mset p = mset [0..<n]" and "\<forall>k t. kw k = Some t \<longrightarrow> rows t = n"
  shows "context_features names (map_option (permute_tensor p) \<circ> kw) n
           = map_sum id (map (permute p)) (context_features names kw n)"
proof (induction names)
  case Nil
  show ?case by simp
next
  case (Cons k ks)
  show ?case
  proof (cases "kw k")
    case None
    then show ?thesis by simp
  next
    case (Some t)
    with assms(2) have r: "rows t = n" by simp
    show ?thesis
    proof (cases t)
      case (Matrix a)
      with Some show ?thesis by simp
    next
      case (Vector v)
      with r Some Cons.IH perm_length [OF assms(1)] show ?thesis
        by (cases "context_features ks kw n") simp_all
    qed
  qed
qed

lemma context_features_length:
  "context_features names kw n = Inr vs \<Longrightarrow> v \<in> set vs \<Longrightarrow> length v = n"
  by (induction names arbitrary: vs)
     (auto split: option.splits tensor.splits if_splits sum.splits)

lemma path_representation_error: "path_representation cfg pth l = Inl e \<Longrightarrow> e = IndexError"
  by (auto simp: path_representation_def index_at_def split: sum.splits if_splits)

lemma last_id_permute:
  "mset p = mset [0..<n] \<Longrightarrow> length msk = n \<Longrightarrow> last_id (permute p msk) = permute p (last_id msk)"
  unfolding last_id_def by (rule permute_map)

lemma last_id_length [simp]: "length (last_id msk) = length msk"
  by (simp add: last_id_def)

lemma RecurrentEncoder_apply_permute:
  assumes perm: "mset p = mset [0..<n]"
    and rows: "rows la = n" "rows lo = n" "rows m = n"
    and kw: "\<forall>k t. kw k = Some t \<longrightarrow> rows t = n"
  shows "RecurrentEncoder_apply D e (permute_tensor p la) (permute_tensor p lo) (permute_tensor p m)
           (map_option (permute_tensor p) \<circ> kw)
         = map_sum id (permute p) (RecurrentEncoder_apply D e la lo m kw)"
proof -
  note len = perm_length [OF perm]
  consider (matrices) lat lon msk where "la = Matrix lat" "lo = Matrix lon" "m = Matrix msk"
    | (other) "(\<exists>v. la = Vector v) \<or> (\<exists>v. lo = Vector v) \<or> (\<exists>v. m = Vector v)"
    by (cases la; cases lo; cases m) auto
  then show ?thesis
  proof cases
    case other
    then show ?thesis
      by (cases la; cases lo; cases m) (auto simp: RecurrentEncoder_apply_def)
  next
    case matrices
    with rows have n: "length lat = n" "length lon = n" "length msk = n" by simp_all
    define F where "F b = path_representation (config e)
        (path D (config e) (lat ! b) (lon ! b) (msk ! b)) (last_id msk ! b)" for b
    define F' where "F' b = path_representation (config e)
        (path D (config e) (permute p lat ! b) (permute p lon ! b) (permute p msk ! b))
        (last_id (permute p msk) ! b)" for b
    have "\<forall>b < n. F' b = F (p ! b)"
      using len n by (simp add: F_def F'_def last_id_permute [OF perm] )
    then have maps: "map F' [0..<n] = permute p (map F [0..<n])"
      by (rule index_map_permute [OF perm])
    have "\<forall>err. Inl err \<in> set (map F [0..<n]) \<longrightarrow> err = IndexError"
      by (auto simp: F_def dest: path_representation_error [OF sym])
    with sequence_permute [OF perm, of "map F [0..<n]" IndexError] maps
    have seq: "sequence (map F' [0..<n]) = map_sum id (permute p) (sequence (map F [0..<n]))"
      by simp
    note ctx = context_features_permute [OF perm kw, of "context_embedder_inputs (config e)"]
    have shape: "list_all2 (\<lambda>r r'. length r = length r') (permute p lat) (permute p lon)
        = list_all2 (\<lambda>r r'. length r = length r') lat lon"
      "list_all2 (\<lambda>r r'. length r = length r') (permute p lat) (permute p msk)
        = list_all2 (\<lambda>r r'. length r = length r') lat msk"
      using n by (simp_all add: list_all2_permute [OF perm])
    show ?thesis
    proof (cases "sequence (map F [0..<n])")
      case (Inl err)
      with seq matrices n len shape show ?thesis
        by (simp add: RecurrentEncoder_apply_def F_def [symmetric] F'_def [symmetric])
    next
      case (Inr reps)
      then have reps: "length reps = n" by (simp add: sequence_map_Inr)
      show ?thesis
      proof (cases "context_features (context_embedder_inputs (config e)) kw n")
        case (Inl err)
        with Inr seq ctx matrices n len shape show ?thesis
          by (simp add: RecurrentEncoder_apply_def F_def [symmetric] F'_def [symmetric])
      next
        case vs: (Inr vs)
        define G where "G b = rec_to_output (config e)
            (fst (reps ! b) @ snd (reps ! b)
             @ context_embedder_apply (config e) (map (\<lambda>v. v ! b) vs))" for b
        define G' where "G' b = rec_to_output (config e)
            (fst (permute p reps ! b) @ snd (permute p reps ! b)
             @ context_embedder_apply (config e) (map (\<lambda>v. v ! b) (map (permute p) vs)))" for b
        have "\<forall>b < n. G' b = G (p ! b)"
          using len by (simp add: G_def G'_def o_def)
        then have G: "map G' [0..<n] = permute p (map G [0..<n])"
          by (rule index_map_permute [OF perm])
        have "RecurrentEncoder_apply D e (Matrix (permute p lat)) (Matrix (permute p lon))
            (Matrix (permute p msk)) (map_option (permute_tensor p) \<circ> kw)
          = (if fst (train_gps_std D) = 0 \<or> snd (train_gps_std D) = 0 then Inl NonFinite
             else if \<not> (list_all2 (\<lambda>r r'. length r = length r') lat lon
                     \<and> list_all2 (\<lambda>r r'. length r = length r') lat msk) then Inl ShapeError
             else Inr (map G' [0..<n]))"
          using Inr vs seq ctx n len shape
          by (simp add: RecurrentEncoder_apply_def F'_def [symmetric] G'_def)
        moreover have "RecurrentEncoder_apply D e (Matrix lat) (Matrix lon) (Matrix msk) kw
          = (if fst (train_gps_std D) = 0 \<or> snd (train_gps_std D) = 0 then Inl NonFinite
             else if \<not> (list_all2 (\<lambda>r r'. length r = length r') lat lon
                     \<and> list_all2 (\<lambda>r r'. length r = length r') lat msk) then Inl ShapeError
             else Inr (map G [0..<n]))"
          using Inr vs n
          by (simp add: RecurrentEncoder_apply_def F_def [symmetric] G_def)
        ultimately show ?thesis using matrices G by simp
      qed
    qed
  qed
qed

lemma call_apply_permute:
  assumes perm: "mset p = mset [0..<n]"
    and d: "\<forall>k t. d k = Some t \<longrightarrow> rows t = n"
  shows "call_apply D e (map_option (permute_tensor p) \<circ> d)
         = map_sum id (permute p) (call_apply D e d)"
proof (cases "\<exists>la lo m. d ''latitude'' = Some la \<and> d ''longitude'' = Some lo
    \<and> d ''latitude_mask'' = Some m")
  case False
  then show ?thesis
    by (auto simp: call_apply_def split: option.splits)
next
  case True
  then obtain la lo m where v: "d ''latitude'' = Some la" "d ''longitude'' = Some lo"
    "d ''latitude_mask'' = Some m" by blast
  define rest where "rest = d(''latitude'' := None, ''longitude'' := None, ''latitude_mask'' := None)"
  have rest: "(map_option (permute_tensor p) \<circ> d)
      (''latitude'' := None, ''longitude'' := None, ''latitude_mask'' := None)
      = map_option (permute_tensor p) \<circ> rest"
    by (auto simp: fun_eq_iff rest_def)
  have "\<forall>k t. rest k = Some t \<longrightarrow> rows t = n"
    using d by (auto simp: rest_def split: if_splits)
  from RecurrentEncoder_apply_permute [OF perm _ _ _ this, of la lo m D e] d v
  have "RecurrentEncoder_apply D e (permute_tensor p la) (permute_tensor p lo)
      (permute_tensor p m) (map_option (permute_tensor p) \<circ> rest)
    = map_sum id (permute p) (RecurrentEncoder_apply D e la lo m rest)"
    by simp
  moreover have "call_apply D e d = RecurrentEncoder_apply D e la lo m rest"
    using v by (simp add: call_apply_def rest_def)
  moreover have "call_apply D e (map_option (permute_tensor p) \<circ> d)
    = RecurrentEncoder_apply D e (permute_tensor p la) (permute_tensor p lo)
        (permute_tensor p m) (map_option (permute_tensor p) \<circ> rest)"
    using v by (simp add: call_apply_def rest [symmetric])
  ultimately show ?thesis by simp
qed

lemma RecurrentEncoder_apply_length:
  "RecurrentEncoder_apply D e la lo m kw = Inr out \<Longrightarrow> length out = rows la"
  by (auto simp: RecurrentEncoder_apply_def split: tensor.splits if_splits sum.splits)

lemma call_apply_length:
  "call_apply D e d = Inr out \<Longrightarrow> \<exists>t. d ''latitude'' = Some t \<and> length out = rows t"
  by (auto simp: call_apply_def split: option.splits dest: RecurrentEncoder_apply_length)

lemma normalize_row_error: "normalize_row c = Inl e \<Longrightarrow> e = NonFinite"
  by (auto simp: normalize_row_def split: if_splits)

lemma normalize_rows_permute:
  assumes "mset p = mset [0..<n]" and "length c = n"
  shows "sequence (map normalize_row (permute p c))
         = map_sum id (permute p) (sequence (map normalize_row c))"
proof -
  have "\<forall>e. Inl e \<in> set (map normalize_row c) \<longrightarrow> e = NonFinite"
    by (auto dest: normalize_row_error [OF sym])
  with sequence_permute [OF assms(1), of "map normalize_row c" NonFinite] assms(2)
  show ?thesis by (simp add: permute_map [OF assms])
qed

lemma dot_product_permute:
  assumes "mset p = mset [0..<n]" and "length u = n" and "length v = n"
  shows "dot_product (permute p u) (permute p v) = dot_product u v"
proof -
  have "map2 (*) (permute p u) (permute p v) = permute p (map2 (*) u v)"
    using assms perm_length [OF assms(1)] perm_nth_less [OF assms(1)]
    by (intro nth_equalityI) simp_all
  with permute_sum_list [OF assms(1), of "map2 (*) u v"] assms(2,3)
  show ?thesis by (simp add: dot_product_def)
qed

lemma dot_permute_columns:
  assumes "mset p = mset [0..<n]" and "length c = n"
  shows "dot a (permute p c) = map_sum id (map (permute p)) (dot a c)"
  using permute_set [OF assms] assms
  by (simp add: dot_def list_all_iff permute_map [OF assms] o_def)

lemma dot_permute_both:
  assumes "mset p = mset [0..<n]"
    and "\<forall>u \<in> set a. length u = n" and "\<forall>v \<in> set b. length v = n"
  shows "dot (map (permute p) a) (map (permute p) b) = dot a b"
  using assms perm_length [OF assms(1)]
  by (simp add: dot_def list_all_iff dot_product_permute [OF assms(1)] o_def cong: map_cong)

lemma softmax_permute:
  assumes "mset p = mset [0..<n]" and "length r = n"
  shows "softmax (permute p r) = permute p (softmax r)"
proof -
  have "sum_list (map exp (permute p r)) = sum_list (map exp r)"
    using permute_sum_list [OF assms(1), of "map exp r"] assms(2)
    by (simp add: permute_map [OF assms])
  then show ?thesis by (simp add: softmax_def permute_map [OF assms])
qed

lemma candidate_last_permute:
  "mset p = mset [0..<n] \<Longrightarrow> length msk = n \<Longrightarrow>
   candidate_last (permute p msk) = permute p (candidate_last msk)"
  unfolding candidate_last_def by (rule permute_map)

lemma take_last_permute:
  assumes perm: "mset p = mset [0..<n]" and "\<forall>a. t = Some a \<longrightarrow> rows a = n"
    and "length lasts = n"
  shows "take_last (map_option (permute_tensor p) t) name n (permute p lasts)
         = map_sum id (permute p) (take_last t name n lasts)"
proof (cases t)
  case None
  then show ?thesis by (simp add: take_last_def)
next
  case (Some a)
  show ?thesis
  proof (cases a)
    case (Vector v)
    with Some show ?thesis by (simp add: take_last_def)
  next
    case (Matrix m)
    with Some assms(2) have len: "length m = n" by simp
    note lp = perm_length [OF perm]
    define H where "H b = (case index_at m (int b) of
        Inl e \<Rightarrow> Inl e | Inr row \<Rightarrow> index_at row (lasts ! b))" for b
    define H' where "H' b = (case index_at (permute p m) (int b) of
        Inl e \<Rightarrow> Inl e | Inr row \<Rightarrow> index_at row (permute p lasts ! b))" for b
    have "\<forall>b < n. H' b = H (p ! b)"
      using len lp perm_nth_less [OF perm] by (simp add: H_def H'_def index_at_def)
    then have maps: "map H' [0..<n] = permute p (map H [0..<n])"
      by (rule index_map_permute [OF perm])
    have "\<forall>err. Inl err \<in> set (map H [0..<n]) \<longrightarrow> err = IndexError"
      by (auto simp: H_def index_at_def split: sum.splits if_splits)
    with sequence_permute [OF perm, of "map H [0..<n]" IndexError] maps
    have "sequence (map H' [0..<n]) = map_sum id (permute p) (sequence (map H [0..<n]))"
      by simp
    with Some Matrix show ?thesis
      by (simp add: take_last_def H_def [symmetric] H'_def [symmetric])
  qed
qed

lemma take_last_length: "take_last t name n lasts = Inr xs \<Longrightarrow> length xs = n"
  by (auto simp: take_last_def sequence_map_Inr split: option.splits tensor.splits)

lemma candidate_representation_permute:
  assumes perm: "mset p = mset [0..<n]"
    and rows: "\<forall>k t. take 10 k = ''candidate_'' \<longrightarrow> kw k = Some t \<longrightarrow> rows t = n"
  shows "candidate_representation D self (permute_candidates p kw)
           = map_sum id (permute p) (candidate_representation D self kw)"
    and "candidate_representation D self kw = Inr c \<Longrightarrow> length c = n"
proof -
  let ?names = "inputs (candidate_encoder self)"
  have g: "gather ''candidate_'' ?names (permute_candidates p kw)
      = map_sum id (\<lambda>d. map_option (permute_tensor p) \<circ> d) (gather ''candidate_'' ?names kw)"
    by (rule gather_map_option) (simp add: permute_candidates_def)
  have r: "rows t = n" if "gather ''candidate_'' ?names kw = Inr d" "d k = Some t" for d k t
  proof (rule gather_rows [OF that(1) _ that(2)], intro ballI allI impI)
    fix name a
    assume "kw (''candidate_'' @ name) = Some a"
    with rows [rule_format, of "''candidate_'' @ name" a] show "rows a = n" by simp
  qed
  show "candidate_representation D self (permute_candidates p kw)
           = map_sum id (permute p) (candidate_representation D self kw)"
  proof (cases "gather ''candidate_'' ?names kw")
    case (Inl e)
    with g show ?thesis by (simp add: candidate_representation_def)
  next
    case (Inr d)
    with r have "\<forall>k t. d k = Some t \<longrightarrow> rows t = n" by blast
    from call_apply_permute [OF perm this] Inr g show ?thesis
      by (simp add: candidate_representation_def)
  qed
  show "length c = n" if "candidate_representation D self kw = Inr c"
  proof -
    from that obtain d where d: "gather ''candidate_'' ?names kw = Inr d"
      and "call_apply D (prefix_encoder self) d = Inr c"
      by (auto simp: candidate_representation_def split: sum.splits)
    from call_apply_length [OF this(2)] r [OF d] show ?thesis by auto
  qed
qed

lemma normalized_candidate_representation_permute:
  assumes perm: "mset p = mset [0..<n]"
    and rows: "\<forall>k t. take 10 k = ''candidate_'' \<longrightarrow> kw k = Some t \<longrightarrow> rows t = n"
  shows "normalized_candidate_representation D self (permute_candidates p kw)
           = map_sum id (permute p) (normalized_candidate_representation D self kw)"
proof (cases "candidate_representation D self kw")
  case (Inl e)
  with candidate_representation_permute(1) [OF assms, of D self] show ?thesis
    by (simp add: normalized_candidate_representation_def)
next
  case (Inr c)
  with candidate_representation_permute [OF assms, of D self]
  have "candidate_representation D self (permute_candidates p kw) = Inr (permute p c)"
    and "length c = n" by simp_all
  with Inr normalize_rows_permute [OF perm, of c] show ?thesis
    by (simp add: normalized_candidate_representation_def)
qed

lemma prefix_representation_permute:
  assumes "\<forall>name \<in> set (inputs (prefix_encoder self)). take 10 name \<noteq> ''candidate_''"
  shows "prefix_representation D self (permute_candidates p kw) = prefix_representation D self kw"
proof -
  have "gather [] (inputs (prefix_encoder self)) (permute_candidates p kw)
      = gather [] (inputs (prefix_encoder self)) kw"
    by (rule gather_cong) (use assms in \<open>simp add: permute_candidates_def\<close>)
  then show ?thesis by (simp add: prefix_representation_def)
qed

lemma similarity_permute:
  assumes perm: "mset p = mset [0..<n]"
    and prefix: "\<forall>name \<in> set (inputs (prefix_encoder self)). take 10 name \<noteq> ''candidate_''"
    and rows: "\<forall>k t. take 10 k = ''candidate_'' \<longrightarrow> kw k = Some t \<longrightarrow> rows t = n"
  shows "similarity D self (permute_candidates p kw)
           = map_sum id (map (permute p)) (similarity D self kw)"
    and "similarity D self kw = Inr w \<Longrightarrow> \<forall>u \<in> set w. length u = n"
proof -
  note pre = prefix_representation_permute [OF prefix, of D p kw]
  note nrm = normalized_candidate_representation_permute [OF perm rows, of D self]
  have len: "length c' = n" if "normalized_candidate_representation D self kw = Inr c'" for c'
  proof -
    from that obtain c where c: "candidate_representation D self kw = Inr c"
      by (auto simp: normalized_candidate_representation_def split: sum.splits)
    from normalized_length [OF that c] candidate_representation_permute(2) [OF perm rows c]
    show ?thesis by simp
  qed
  have score: "similarity_score D self (permute_candidates p kw)
      = map_sum id (map (permute p)) (similarity_score D self kw)"
  proof (cases "prefix_representation D self kw")
    case (Inl e)
    with pre show ?thesis by (simp add: similarity_score_def)
  next
    case pr: (Inr pr)
    show ?thesis
    proof (cases "normalized_candidate_representation D self kw")
      case (Inl e)
      with pr pre nrm show ?thesis by (simp add: similarity_score_def)
    next
      case (Inr c')
      with pr pre nrm dot_permute_columns [OF perm len [OF Inr], of pr] show ?thesis
        by (simp add: similarity_score_def)
    qed
  qed
  have slen: "\<forall>r \<in> set s. length r = n" if "similarity_score D self kw = Inr s" for s
  proof -
    from that obtain pr c' where "normalized_candidate_representation D self kw = Inr c'"
      and "dot pr c' = Inr s"
      by (auto simp: similarity_score_def split: sum.splits)
    with len dot_Inr show ?thesis by fastforce
  qed
  show "similarity D self (permute_candidates p kw)
           = map_sum id (map (permute p)) (similarity D self kw)"
  proof (cases "similarity_score D self kw")
    case (Inl e)
    with score show ?thesis by (simp add: similarity_def)
  next
    case (Inr s)
    with slen have "map softmax (map (permute p) s) = map (permute p) (map softmax s)"
      by (simp add: softmax_permute [OF perm])
    with Inr score show ?thesis by (simp add: similarity_def)
  qed
  show "\<forall>u \<in> set w. length u = n" if "similarity D self kw = Inr w"
  proof -
    from similarity_Inr [OF that] obtain s where "similarity_score D self kw = Inr s"
      and "w = map softmax s" by blast
    with slen show ?thesis by auto
  qed
qed

lemma candidate_destination_permute:
  assumes perm: "mset p = mset [0..<n]"
    and rows: "\<forall>k t. take 10 k = ''candidate_'' \<longrightarrow> kw k = Some t \<longrightarrow> rows t = n"
  shows "candidate_destination (permute_candidates p kw)
           = map_sum id (map (permute p)) (candidate_destination kw)"
    and "candidate_destination kw = Inr d \<Longrightarrow> \<forall>v \<in> set d. length v = n"
proof -
  have key: "permute_candidates p kw k = map_option (permute_tensor p) (kw k)"
    if "k \<in> {''candidate_latitude_mask'', ''candidate_latitude'', ''candidate_longitude''}" for k
    using that by (auto simp: permute_candidates_def)
  have r: "\<forall>a. kw k = Some a \<longrightarrow> rows a = n"
    if "k \<in> {''candidate_latitude_mask'', ''candidate_latitude'', ''candidate_longitude''}" for k
  proof (intro allI impI)
    fix a
    assume "kw k = Some a"
    with rows [rule_format, of k a] that show "rows a = n" by auto
  qed
  have r_mask: "\<forall>a. kw ''candidate_latitude_mask'' = Some a \<longrightarrow> rows a = n"
    and r_lat: "\<forall>a. kw ''candidate_latitude'' = Some a \<longrightarrow> rows a = n"
    and r_lon: "\<forall>a. kw ''candidate_longitude'' = Some a \<longrightarrow> rows a = n"
    by (rule r, simp)+
  show "candidate_destination (permute_candidates p kw)
           = map_sum id (map (permute p)) (candidate_destination kw)"
  proof (cases "kw ''candidate_latitude_mask''")
    case None
    then show ?thesis by (simp add: candidate_destination_def key)
  next
    case (Some t)
    show ?thesis
    proof (cases t)
      case (Vector v)
      with Some show ?thesis by (simp add: candidate_destination_def key)
    next
      case (Matrix msk)
      with Some r_mask have len: "length msk = n" by simp
      then have l: "length (candidate_last msk) = n" by (simp add: candidate_last_def)
      note tl_lat = take_last_permute [OF perm r_lat l, of "''candidate_latitude''"]
      note tl_lon = take_last_permute [OF perm r_lon l, of "''candidate_longitude''"]
      show ?thesis
      proof (cases "take_last (kw ''candidate_latitude'') ''candidate_latitude'' n (candidate_last msk)")
        case (Inl e)
        with Some Matrix len tl_lat
        show ?thesis
          by (simp add: candidate_destination_def key candidate_last_permute [OF perm]
              perm_length [OF perm])
      next
        case lat: (Inr lat)
        show ?thesis
        proof (cases "take_last (kw ''candidate_longitude'') ''candidate_longitude'' n (candidate_last msk)")
          case (Inl e)
          with lat Some Matrix len tl_lat
            tl_lon
          show ?thesis
            by (simp add: candidate_destination_def key candidate_last_permute [OF perm]
                perm_length [OF perm])
        next
          case (Inr lon)
          with lat Some Matrix len tl_lat
            tl_lon
          show ?thesis
            by (simp add: candidate_destination_def key candidate_last_permute [OF perm]
                perm_length [OF perm])
        qed
      qed
    qed
  qed
  show "\<forall>v \<in> set d. length v = n" if "candidate_destination kw = Inr d"
  proof -
    from that obtain msk where "kw ''candidate_latitude_mask'' = Some (Matrix msk)"
      by (auto simp: candidate_destination_def split: option.splits tensor.splits)
    moreover from this r_mask have "length msk = n" by simp
    ultimately show ?thesis using that
      by (auto simp: candidate_destination_def split: sum.splits dest: take_last_length)
  qed
qed

text \<open>
  C9. Let \<open>p\<close> be a permutation of the \<open>n\<close> candidates, every \<^verbatim>\<open>candidate_\<close>-prefixed array
  have \<open>n\<close> rows, and no input of the prefix encoder be named with that prefix. Reordering
  the rows of all \<^verbatim>\<open>candidate_\<close>-prefixed arrays by \<open>p\<close> leaves the result of \<^verbatim>\<open>predict\<close>
  unchanged, failures included.
\<close>

theorem predict_candidate_order_invariant:
  assumes "mset p = mset [0..<n]"
    and "\<forall>name \<in> set (inputs (prefix_encoder self)). take 10 name \<noteq> ''candidate_''"
    and "\<forall>k t. take 10 k = ''candidate_'' \<longrightarrow> kw k = Some t \<longrightarrow> rows t = n"
  shows "predict D self (permute_candidates p kw) = predict D self kw"
proof (cases "similarity D self kw")
  case (Inl e)
  with similarity_permute(1) [OF assms, of D] show ?thesis by (simp add: predict_def)
next
  case w: (Inr w)
  with similarity_permute [OF assms, of D]
  have w': "similarity D self (permute_candidates p kw) = Inr (map (permute p) w)"
    and wl: "\<forall>u \<in> set w. length u = n" by simp_all
  show ?thesis
  proof (cases "candidate_destination kw")
    case (Inl e)
    with w w' candidate_destination_permute(1) [OF assms(1,3)] show ?thesis
      by (simp add: predict_def)
  next
    case (Inr d)
    with candidate_destination_permute [OF assms(1,3)]
    have "candidate_destination (permute_candidates p kw) = Inr (map (permute p) d)"
      and "\<forall>v \<in> set d. length v = n" by simp_all
    with Inr w w' dot_permute_both [OF assms(1) wl, of d] show ?thesis
      by (simp add: predict_def)
  qed
qed

theorem predict_candidate_order_invariant_witness:
  "predict unit_data (counting_model False) (permute_candidates [2, 0, 1] example_batch)
     = Inr [[8, 4], [8, 4]]
   \<and> permute_candidates [2, 0, 1] example_batch ''candidate_latitude''
     = Some (Matrix [[9, 10], [5, 6], [7, 8]])"
proof -
  have "mset [2, 0, 1] = mset [0..<3]" by (simp add: upt_rec)
  moreover have "\<forall>name \<in> set (inputs (prefix_encoder (counting_model False))).
      take 10 name \<noteq> ''candidate_''"
    by (simp add: counting_model_def counting_config_def)
  moreover have "\<forall>k t. take 10 k = ''candidate_'' \<longrightarrow> example_batch k = Some t \<longrightarrow> rows t = 3"
    by (auto simp: example_batch_def split: if_splits)
  ultimately have "predict unit_data (counting_model False)
      (permute_candidates [2, 0, 1] example_batch)
    = predict unit_data (counting_model False) example_batch"
    by (rule predict_candidate_order_invariant)
  then show ?thesis
    by (simp add: example_predict) (simp add: permute_candidates_def example_batch_def permute_def)
qed

end
